theory Spec2Isabelle
  imports Complex_Main "HOL-Library.Word"
begin

section \<open>GEES2Downloader: data model\<close>

text \<open>
  The development embeds \<^verbatim>\<open>geeS2downloader/gee.py\<close> and
  \<^verbatim>\<open>geeS2downloader/common.py\<close>. Python integers are \<open>int\<close>. A finite Python
  float is the real number it denotes, and every float operation rounds its exact result
  to binary64 (section on floats below). Exceptions are values of \<open>error\<close>; a method
  that can raise returns \<open>error + 'a\<close>, and a method that can also fall through to
  Python's \<open>None\<close> returns \<open>error + 'a option\<close>.
\<close>

datatype error =
    ValueError          \<comment> \<open>\<open>math.log2\<close>, \<open>math.sqrt\<close> outside their domain; numpy shape mismatch\<close>
  | ZeroDivisionError
  | OverflowError       \<comment> \<open>an integer or a quotient too large for a float; \<open>int\<close> of an infinity\<close>
  | TypeError
  | AttributeError
  | IndexError
  | KeyError
  | BadZipFile
  | FetchError string   \<comment> \<open>whatever exception a tile download task ended with\<close>

text \<open>
  \<open>band_info\<close> is the metadata dictionary of one band as the code reads it:
  \<open>band_info['dimensions']\<close>, \<open>band_info['data_type']['min']\<close>,
  \<open>band_info['data_type']['max']\<close> and \<open>band_info['nominal_scale']\<close>, the last one
  stored by \<open>download\<close>. The pair \<open>dimensions\<close> is \<open>(dimension[0], dimension[1])\<close>:
  the tiler sweeps \<open>slice_y\<close> over the first and \<open>slice_x\<close> over the second, and the
  output matrix has \<open>dimension[0]\<close> rows.
\<close>

record band_info =
  dimensions :: "int \<times> int"
  dt_min :: int
  dt_max :: int
  nominal_scale :: "real option"

record slice =
  start :: int
  stop :: int

record Tile =
  slice_y :: slice
  slice_x :: slice
  t_band_info :: band_info

definition py_int :: "real \<Rightarrow> int" where
  \<comment> \<open>Python's \<open>int(x)\<close> on a float: rounds towards zero.\<close>
  "py_int x = (if 0 \<le> x then \<lfloor>x\<rfloor> else \<lceil>x\<rceil>)"

section \<open>Python floats\<close>

text \<open>
  A Python float is an IEEE 754 binary64 number. \<open>to_double x\<close> is the real \<open>x\<close>
  rounded to 53 significant bits, to nearest, ties to even; the exponent is bounded below
  by -1022 (subnormal numbers) and not bounded above: each operation tests its rounded
  result against \<open>2 ^ 1024\<close>, where binary64 overflows.
\<close>

definition pow2 :: "int \<Rightarrow> real" where
  "pow2 k = (if 0 \<le> k then 2 ^ nat k else 1 / 2 ^ nat (- k))"

definition round_even :: "real \<Rightarrow> int" where
  \<comment> \<open>The nearest integer; a tie goes to the even one.\<close>
  "round_even z =
     (if frac z < 1 / 2 then \<lfloor>z\<rfloor>
      else if 1 / 2 < frac z then \<lfloor>z\<rfloor> + 1
      else if even \<lfloor>z\<rfloor> then \<lfloor>z\<rfloor> else \<lfloor>z\<rfloor> + 1)"

definition to_double :: "real \<Rightarrow> real" where
  "to_double x =
     (if x = 0 then 0
      else
        (let e = max \<lfloor>log 2 \<bar>x\<bar>\<rfloor> (- 1022);
             ulp = pow2 (e - 52)
         in real_of_int (round_even (x / ulp)) * ulp))"

definition finite_float :: "real \<Rightarrow> bool" where
  "finite_float y \<longleftrightarrow> \<bar>y\<bar> < pow2 1024"

definition float_of_int :: "int \<Rightarrow> error + real" where
  \<comment> \<open>The conversion of an \<open>int\<close> operand to float.\<close>
  "float_of_int k =
     (let y = to_double (real_of_int k)
      in if finite_float y then Inr y else Inl OverflowError)"

definition true_div :: "int \<Rightarrow> int \<Rightarrow> error + real" where
  \<comment> \<open>\<open>a / b\<close> on two \<open>int\<close>s: the correctly rounded quotient.\<close>
  "true_div a b =
     (if b = 0 then Inl ZeroDivisionError
      else
        (let y = to_double (real_of_int a / real_of_int b)
         in if finite_float y then Inr y else Inl OverflowError))"

definition math_sqrt :: "real \<Rightarrow> error + real" where
  "math_sqrt x = (if x < 0 then Inl ValueError else Inr (to_double (sqrt x)))"

definition int_of_product :: "real \<Rightarrow> int \<Rightarrow> error + int" where
  \<comment> \<open>\<open>int(a * k)\<close> for a float \<open>a\<close> and an \<open>int\<close> \<open>k\<close> (in either order): \<open>k\<close> is
      converted, the product is rounded, and \<open>int\<close> refuses an infinite product.\<close>
  "int_of_product a k =
     (case float_of_int k of
        Inl e \<Rightarrow> Inl e
      | Inr fk \<Rightarrow>
          (let p = to_double (a * fk)
           in if finite_float p then Inr (py_int p) else Inl OverflowError))"

section \<open>Tiles\<close>

definition shape :: "Tile \<Rightarrow> int \<times> int" where
  "shape t = (stop (slice_y t) - start (slice_y t), stop (slice_x t) - start (slice_x t))"

definition slices :: "Tile \<Rightarrow> slice \<times> slice" where
  "slices t = (slice_y t, slice_x t)"

definition size_tile :: "Tile \<Rightarrow> error + int" where
  \<comment> \<open>\<open>Tile.size\<close>: \<open>int(self.shape[0] * self.shape[1] * 1.3)\<close>; the literal \<open>1.3\<close> is
      the double nearest to 13/10.\<close>
  "size_tile t = int_of_product (to_double (13 / 10)) (fst (shape t) * snd (shape t))"

section \<open>The downloader's state\<close>

type_synonym pixel = "16 word"
type_synonym matrix = "pixel list list"

record image =
  band_names :: "string list"
  system_bands :: "string \<rightharpoonup> band_info"
  proj_nominal_scale :: real

record downloader =
  img :: "image option"
  band :: "string option"
  band_info :: "band_info option"
  array :: "matrix option"
  tiles :: "Tile list option"
  max_workers :: int

section \<open>Size estimate and tiling\<close>

definition estimate_band_size :: "downloader \<Rightarrow> int \<Rightarrow> error + int option" where
  \<comment> \<open>\<open>_estimate_band_size(excess_factor)\<close>. Without band info it logs a warning and
      returns \<open>None\<close>. \<open>math.log2\<close> raises on a range that is not positive; its result
      (\<open>bits\<close>, \<open>bts\<close>) is not used afterwards.\<close>
  "estimate_band_size d excess_factor =
     (case band_info d of
        None \<Rightarrow> Inr None
      | Some bi \<Rightarrow>
          (let values_range = dt_max bi - dt_min bi + 1 in
           if values_range \<le> 0 then Inl ValueError
           else
             (let bits = log 2 (real_of_int values_range);
                  bts = bits / 8;
                  dims = dimensions bi
              in Inr (Some (fst dims * snd dims * 2 * excess_factor)))))"

partial_function (option) inner_while ::
  "band_info \<Rightarrow> int \<Rightarrow> int \<Rightarrow> int \<Rightarrow> int \<Rightarrow> Tile list \<Rightarrow> Tile list option" where
  \<comment> \<open>The loop \<open>while j < dimension[1]\<close> of \<open>_create_tiles\<close>, at row offset \<open>i\<close>.\<close>
  "inner_while bi step_y step_x i j acc =
     (if j < snd (dimensions bi) then
        (let sl_y = \<lparr>start = i,
                     stop = (if i + step_y < fst (dimensions bi) then i + step_y
                             else fst (dimensions bi))\<rparr>;
             sl_x = \<lparr>start = j,
                     stop = (if j + step_x < snd (dimensions bi) then j + step_x
                             else snd (dimensions bi))\<rparr>
         in inner_while bi step_y step_x i (j + step_x)
              (acc @ [\<lparr>slice_y = sl_y, slice_x = sl_x, t_band_info = bi\<rparr>]))
      else Some acc)"

partial_function (option) outer_while ::
  "band_info \<Rightarrow> int \<Rightarrow> int \<Rightarrow> int \<Rightarrow> Tile list \<Rightarrow> Tile list option" where
  \<comment> \<open>The loop \<open>while i < dimension[0]\<close>; \<open>j\<close> is 0 on entry and is reset to 0 after
      each row.\<close>
  "outer_while bi step_y step_x i acc =
     (if i < fst (dimensions bi) then
        Option.bind (inner_while bi step_y step_x i 0 acc)
          (\<lambda>acc'. outer_while bi step_y step_x (i + step_y) acc')
      else Some acc)"

definition tiles_for_factor :: "band_info \<Rightarrow> real \<Rightarrow> (error + Tile list) option" where
  \<comment> \<open>\<open>_create_tiles\<close> from the point where \<open>rescale_factor\<close> is known.\<close>
  "tiles_for_factor bi rescale_factor =
     (let dimension = dimensions bi in
      if rescale_factor > 1 then
        Some (Inr [\<lparr>slice_y = \<lparr>start = 0, stop = fst dimension\<rparr>,
                    slice_x = \<lparr>start = 0, stop = snd dimension\<rparr>,
                    t_band_info = bi\<rparr>])
      else
        (case int_of_product rescale_factor (fst dimension) of
           Inl e \<Rightarrow> Some (Inl e)
         | Inr step_y \<Rightarrow>
             (case int_of_product rescale_factor (snd dimension) of
                Inl e \<Rightarrow> Some (Inl e)
              | Inr step_x \<Rightarrow> map_option Inr (outer_while bi step_y step_x 0 []))))"

definition create_tiles :: "downloader \<Rightarrow> int \<Rightarrow> (error + Tile list option) option" where
  \<comment> \<open>\<open>_create_tiles(max_size)\<close>. The outer \<open>option\<close> is \<open>None\<close> when the sweep never
      returns. \<open>max_size / size\<close> raises on \<open>size = 0\<close>, \<open>math.sqrt\<close> on a negative
      quotient.\<close>
  "create_tiles d max_size =
     (case band_info d of
        None \<Rightarrow> Some (Inr None)
      | Some bi \<Rightarrow>
          (case estimate_band_size d 2 of
             Inl e \<Rightarrow> Some (Inl e)
           | Inr None \<Rightarrow> Some (Inl TypeError)
           | Inr (Some sz) \<Rightarrow>
               (case true_div max_size sz of
                  Inl e \<Rightarrow> Some (Inl e)
                | Inr ratio \<Rightarrow>
                    (case math_sqrt ratio of
                       Inl e \<Rightarrow> Some (Inl e)
                     | Inr rescale_factor \<Rightarrow>
                         map_option (map_sum id Some)
                           (tiles_for_factor bi rescale_factor)))))"

text \<open>What a tile list covers.\<close>

definition covers :: "Tile \<Rightarrow> int \<Rightarrow> int \<Rightarrow> bool" where
  "covers t y x \<longleftrightarrow>
     start (slice_y t) \<le> y \<and> y < stop (slice_y t) \<and>
     start (slice_x t) \<le> x \<and> x < stop (slice_x t)"

definition count_covering :: "Tile list \<Rightarrow> int \<Rightarrow> int \<Rightarrow> nat" where
  "count_covering ts y x = length (filter (\<lambda>t. covers t y x) ts)"

definition inside_grid :: "band_info \<Rightarrow> Tile \<Rightarrow> bool" where
  "inside_grid bi t \<longleftrightarrow>
     0 \<le> start (slice_y t) \<and> start (slice_y t) < stop (slice_y t) \<and>
     stop (slice_y t) \<le> fst (dimensions bi) \<and>
     0 \<le> start (slice_x t) \<and> start (slice_x t) < stop (slice_x t) \<and>
     stop (slice_x t) \<le> snd (dimensions bi)"

section \<open>Streaming a response and unpacking the archive (common.py)\<close>

type_synonym byte = "8 word"
type_synonym chunk = "byte list"

text \<open>The progress bar: \<open>pbar.n\<close>, \<open>pbar.total\<close>; \<open>pbar.update(k)\<close> adds \<open>k\<close> to \<open>n\<close>.\<close>

record pbar =
  pbar_n :: int
  pbar_total :: int

definition update :: "pbar \<Rightarrow> int \<Rightarrow> pbar" where
  "update p k = p\<lparr>pbar_n := pbar_n p + k\<rparr>"

text \<open>
  The collaborators. A transport answers \<open>get(url, stream=True)\<close> with the chunks that
  \<open>iter_content(chunk_size=1024)\<close> yields, or fails. An opened archive is its
  \<open>filelist\<close>; each entry carries what \<open>z.read\<close> gives for it.
\<close>

type_synonym transport = "string \<Rightarrow> error + chunk list"

fun iter_content :: "chunk list \<Rightarrow> byte list \<Rightarrow> pbar option \<Rightarrow> byte list \<times> pbar option" where
  \<comment> \<open>The \<open>for chunk in r.iter_content(...)\<close> loop of \<open>open_url\<close>.\<close>
  "iter_content [] mem_file pb = (mem_file, pb)"
| "iter_content (c # cs) mem_file pb =
     (if c \<noteq> [] then
        iter_content cs (mem_file @ c)
          (case pb of None \<Rightarrow> None | Some p \<Rightarrow> Some (update p 1024))
      else iter_content cs mem_file pb)"

definition open_url ::
  "transport \<Rightarrow> string \<Rightarrow> transport option \<Rightarrow> pbar option \<Rightarrow> error + byte list \<times> pbar" where
  \<comment> \<open>\<open>requests\<close> is the module-level fallback transport. After the loop \<open>pbar.n\<close> is
      read without the \<open>None\<close> test of the loop body.\<close>
  "open_url requests url session pb =
     (let session = (case session of Some s \<Rightarrow> s | None \<Rightarrow> requests) in
      case session url of
        Inl e \<Rightarrow> Inl e
      | Inr r \<Rightarrow>
          (case iter_content r [] pb of
             (mem_file, None) \<Rightarrow> Inl AttributeError
           | (mem_file, Some p) \<Rightarrow>
               if pbar_n p < pbar_total p
               then Inr (mem_file, update p (pbar_total p - pbar_n p))
               else Inr (mem_file, p)))"


section \<open>Geometries (common.py)\<close>

type_synonym point = "real \<times> real"

datatype geometry = Point point | Polygon "point list list"

datatype pts_arg = PtsTuple point | PtsGeometry geometry | PtsList "point list"

datatype event =
    Print string
  | PrintDividing nat     \<comment> \<open>\<open>print(f'Dividing band in {len(self.tiles)} tiles')\<close>\<close>
  | LogError string
  | Submit Tile           \<comment> \<open>\<open>executor.submit(Tile.download, tile, ...)\<close>\<close>

definition create_geometry ::
  "(geometry \<Rightarrow> bool) \<Rightarrow> pts_arg \<Rightarrow> bool \<Rightarrow> pts_arg \<times> (error + geometry option) \<times> event list" where
  \<comment> \<open>Returns the argument object as the caller sees it after the call, the result (or the
      exception), and what was logged or printed. \<open>has_logger\<close> says whether a logger was
      passed. A list is the only argument the function can mutate.\<close>
  "create_geometry is_valid pts has_logger =
     (case (case pts of
              PtsTuple c \<Rightarrow> Inr (pts, Point c)
            | PtsGeometry g \<Rightarrow> Inr (pts, g)
            | PtsList ps \<Rightarrow>
                (case ps of
                   [] \<Rightarrow> Inl IndexError
                 | p0 # _ \<Rightarrow>
                     (let ps' = (if p0 \<noteq> last ps then ps @ [p0] else ps)
                      in Inr (PtsList ps', Polygon [ps'])))) of
        Inl e \<Rightarrow> (pts, Inl e, [])
      | Inr (pts', geom) \<Rightarrow>
          if is_valid geom then (pts', Inr (Some geom), [])
          else
            (let msg = ''Informed points do not correspond to a valid polygon.''
             in (pts', Inr None, [if has_logger then LogError msg else Print msg])))"

section \<open>Assembling the band (gee.py)\<close>

type_synonym block = "int list list"

definition zeros :: "int \<times> int \<Rightarrow> error + matrix" where
  \<comment> \<open>\<open>np.zeros(dimensions).astype('int16')\<close>; a negative dimension is refused.\<close>
  "zeros dims =
     (if fst dims < 0 \<or> snd dims < 0 then Inl ValueError
      else Inr (replicate (nat (fst dims)) (replicate (nat (snd dims)) 0)))"

definition slice_bounds :: "slice \<Rightarrow> nat \<Rightarrow> nat \<times> nat" where
  \<comment> \<open>What a slice \<open>start:stop\<close> selects on an axis of length \<open>len\<close>: a negative index
      counts from the end, and both ends are clipped to the axis.\<close>
  "slice_bounds sl len =
     (let norm = (\<lambda>k. if k < 0 then nat (max 0 (k + int len)) else nat (min k (int len)))
      in (norm (start sl), norm (stop sl)))"

definition broadcastable :: "block \<Rightarrow> nat \<Rightarrow> nat \<Rightarrow> bool" where
  \<comment> \<open>A two-dimensional block fits a region of shape \<open>(h, w)\<close> when each of its axes has
      the region's length or length 1.\<close>
  "broadcastable b h w \<longleftrightarrow>
     (length b = h \<or> length b = 1) \<and> list_all (\<lambda>row. length row = w \<or> length row = 1) b"

definition block_at :: "block \<Rightarrow> nat \<Rightarrow> nat \<Rightarrow> int" where
  "block_at b r c =
     (let row = b ! (if length b = 1 then 0 else r)
      in row ! (if length row = 1 then 0 else c))"

definition set_region :: "matrix \<Rightarrow> slice \<times> slice \<Rightarrow> block \<Rightarrow> error + matrix" where
  \<comment> \<open>\<open>img_array[slice_y, slice_x] = block\<close>; values are cast to \<open>int16\<close>.\<close>
  "set_region m sls b =
     (let (r0, r1) = slice_bounds (fst sls) (length m);
          (c0, c1) = slice_bounds (snd sls) (if m = [] then 0 else length (hd m))
      in if \<not> broadcastable b (r1 - r0) (c1 - c0) then Inl ValueError
         else Inr (map (\<lambda>r.
                     if r0 \<le> r \<and> r < r1
                     then map (\<lambda>c. if c0 \<le> c \<and> c < c1
                                    then word_of_int (block_at b (r - r0) (c - c0))
                                    else m ! r ! c)
                              [0 ..< length (m ! r)]
                     else m ! r)
                   [0 ..< length m]))"

fun assemble :: "matrix \<Rightarrow> (Tile \<times> (error + block)) list \<Rightarrow> matrix \<times> error option" where
  \<comment> \<open>\<open>for tile, worker in zip(self.tiles, workers): img_array[tile.slices] = worker.result()\<close>.
      \<open>worker.result()\<close> returns the task's block or raises the task's exception. The
      result is the local array when the loop ends, and the exception that ended it.\<close>
  "assemble img_array [] = (img_array, None)"
| "assemble img_array ((tile, Inl e) # rest) = (img_array, Some e)"
| "assemble img_array ((tile, Inr b) # rest) =
     (case set_region img_array (slices tile) b of
        Inl e \<Rightarrow> (img_array, Some e)
      | Inr img_array' \<Rightarrow> assemble img_array' rest)"

definition download_band ::
  "(image \<Rightarrow> string option \<Rightarrow> Tile \<Rightarrow> error + block) \<Rightarrow> downloader \<Rightarrow>
   (downloader \<times> event list \<times> (error + matrix)) option" where
  \<comment> \<open>\<open>_download_band\<close>. \<open>Tile_download\<close> is the outcome of the task
      \<open>Tile.download(tile, self.img, self.band, session)\<close>; the polling loop only waits
      for every task to be done. \<open>None\<close>: the tiling never returns.\<close>
  "download_band Tile_download d =
     (case band_info d of
        None \<Rightarrow> Some (d, [], Inl TypeError)
      | Some bi \<Rightarrow>
          (case zeros (dimensions bi) of
             Inl e \<Rightarrow> Some (d, [], Inl e)
           | Inr img_array \<Rightarrow>
               (case create_tiles d 33554432 of
                  None \<Rightarrow> None
                | Some (Inl e) \<Rightarrow> Some (d, [], Inl e)
                | Some (Inr None) \<Rightarrow> Some (d\<lparr>tiles := None\<rparr>, [], Inl TypeError)
                | Some (Inr (Some ts)) \<Rightarrow>
                    (let d' = d\<lparr>tiles := Some ts\<rparr>;
                         events = PrintDividing (length ts) # map Submit ts;
                         workers = map (\<lambda>tile. case img d' of
                                                   None \<Rightarrow> Inl AttributeError
                                                 | Some im \<Rightarrow> Tile_download im (band d') tile) ts
                     in case assemble img_array (zip ts workers) of
                          (_, Some e) \<Rightarrow> Some (d', events, Inl e)
                        | (img_array', None) \<Rightarrow> Some (d', events, Inr img_array')))))"

definition select :: "image \<Rightarrow> string \<Rightarrow> image" where
  \<comment> \<open>\<open>img.select(band)\<close>: the image restricted to one band.\<close>
  "select im b = im\<lparr>band_names := [b]\<rparr>"

definition download ::
  "(image \<Rightarrow> string option \<Rightarrow> Tile \<Rightarrow> error + block) \<Rightarrow> image \<Rightarrow> string \<Rightarrow> downloader \<Rightarrow>
   (downloader \<times> event list \<times> error option) option" where
  \<comment> \<open>\<open>download(img, band)\<close>: the downloader afterwards, what was printed, logged and
      submitted, and the exception if one left the method (it returns \<open>None\<close> on both
      branches).\<close>
  "download Tile_download im b d =
     (let ev0 = [Print ''Retrieving band info''] in
      if b \<in> set (band_names im) then
        (let d1 = d\<lparr>img := Some (select im b), band := Some b\<rparr> in
         case system_bands (select im b) b of
           None \<Rightarrow> Some (d1, ev0, Some KeyError)
         | Some bi \<Rightarrow>
             (let d2 = d1\<lparr>band_info :=
                           Some (bi\<lparr>nominal_scale := Some (proj_nominal_scale (select im b))\<rparr>)\<rparr>
              in case download_band Tile_download d2 of
                   None \<Rightarrow> None
                 | Some (d3, ev, Inl e) \<Rightarrow> Some (d3, ev0 @ ev, Some e)
                 | Some (d3, ev, Inr arr) \<Rightarrow>
                     Some (d3\<lparr>array := Some arr\<rparr>,
                           ev0 @ ev @ [Print ''Finished. The result can be accessed at obj.array''],
                           None)))
      else Some (d, ev0 @ [LogError (''Image does not contain band '' @ b)], None))"

section \<open>Concrete bands and tiles\<close>

text \<open>Inputs at which the theorems below are evaluated.\<close>

definition bi44 :: band_info where
  "bi44 = \<lparr>dimensions = (4, 4), dt_min = 0, dt_max = 65535, nominal_scale = None\<rparr>"

definition d44 :: downloader where
  "d44 = \<lparr>img = None, band = None, band_info = Some bi44, array = None, tiles = None,
           max_workers = 5\<rparr>"

definition d11 :: downloader where
  "d11 = \<lparr>img = None, band = None,
           band_info = Some \<lparr>dimensions = (1, 1), dt_min = 0, dt_max = 65535,
                             nominal_scale = None\<rparr>,
           array = None, tiles = None, max_workers = 5\<rparr>"

definition d65 :: downloader where
  "d65 = \<lparr>img = None, band = None,
           band_info = Some \<lparr>dimensions = (65, 65), dt_min = 0, dt_max = 65535,
                             nominal_scale = None\<rparr>,
           array = None, tiles = None, max_workers = 5\<rparr>"

definition d_empty_range :: downloader where
  "d_empty_range = \<lparr>img = None, band = None,
           band_info = Some \<lparr>dimensions = (4, 4), dt_min = 1, dt_max = 0,
                             nominal_scale = None\<rparr>,
           array = None, tiles = None, max_workers = 5\<rparr>"

definition d_strip :: downloader where
  "d_strip = \<lparr>img = None, band = None,
           band_info = Some \<lparr>dimensions = (1, 33554432), dt_min = 0, dt_max = 65535,
                             nominal_scale = None\<rparr>,
           array = None, tiles = None, max_workers = 5\<rparr>"

definition t11 :: Tile where
  "t11 = \<lparr>slice_y = \<lparr>start = 0, stop = 1\<rparr>, slice_x = \<lparr>start = 0, stop = 1\<rparr>,
           t_band_info = bi44\<rparr>"

definition t14 :: Tile where
  "t14 = \<lparr>slice_y = \<lparr>start = 0, stop = 1\<rparr>, slice_x = \<lparr>start = 0, stop = 4\<rparr>,
           t_band_info = bi44\<rparr>"

definition t_large :: Tile where
  "t_large = \<lparr>slice_y = \<lparr>start = 0, stop = 67108864\<rparr>,
               slice_x = \<lparr>start = 0, stop = 67108864\<rparr>,
               t_band_info = \<lparr>dimensions = (67108864, 67108864), dt_min = 0, dt_max = 65535,
                              nominal_scale = None\<rparr>\<rparr>"


definition resp3 :: transport where
  \<comment> \<open>A transport whose response body is one chunk of three bytes.\<close>
  "resp3 = (\<lambda>u. Inr [[1, 2, 3]])"


definition bi_wide :: band_info where
  "bi_wide = \<lparr>dimensions = (2, 16777216), dt_min = 0, dt_max = 65535, nominal_scale = None\<rparr>"

definition im_wide :: image where
  "im_wide = \<lparr>band_names = [''B4'', ''B8''], system_bands = [''B8'' \<mapsto> bi_wide],
              proj_nominal_scale = 10\<rparr>"


definition fail_first :: "image \<Rightarrow> string option \<Rightarrow> Tile \<Rightarrow> error + block" where
  "fail_first im b t =
     (if start (slice_y t) = 0 \<and> start (slice_x t) = 0 then Inl (FetchError ''timeout'')
      else Inr [[7]])"







definition always_ok :: "image \<Rightarrow> string option \<Rightarrow> Tile \<Rightarrow> error + block" where
  "always_ok im b t = Inr [[7]]"

section \<open>Rounding to binary64\<close>

lemma pow2_powr: "pow2 k = 2 powr real_of_int k"
  by (simp add: pow2_def powr_real_of_int inverse_eq_divide)

lemma pow2_pos: "0 < pow2 k"
  by (simp add: pow2_def)

lemma floor_log2:
  assumes "pow2 k \<le> y" and "y < pow2 (k + 1)"
  shows "\<lfloor>log 2 y\<rfloor> = k"
proof -
  have y: "0 < y" using assms(1) pow2_pos[of k] by linarith
  have lo: "real_of_int k \<le> log 2 y"
    using assms(1) y by (simp add: le_log_iff pow2_powr)
  have hi: "log 2 y < real_of_int (k + 1)"
    using log_less_iff[of 2 y "real_of_int (k + 1)"] assms(2) y by (simp add: pow2_powr)
  show ?thesis
    using floor_unique[OF lo] hi by simp
qed

lemma log2_bounds:
  assumes "0 < y"
  shows "pow2 \<lfloor>log 2 y\<rfloor> \<le> y \<and> y < pow2 (\<lfloor>log 2 y\<rfloor> + 1)"
proof -
  have a: "2 powr real_of_int \<lfloor>log 2 y\<rfloor> \<le> y"
    using le_log_iff[of 2 y "real_of_int \<lfloor>log 2 y\<rfloor>"] assms by simp
  have "log 2 y < real_of_int (\<lfloor>log 2 y\<rfloor> + 1)" by simp
  then have b: "y < 2 powr real_of_int (\<lfloor>log 2 y\<rfloor> + 1)"
    using log_less_iff[of 2 y "real_of_int (\<lfloor>log 2 y\<rfloor> + 1)"] assms by simp
  from a b show ?thesis by (simp only: pow2_powr)
qed

lemma round_even_of_int: "round_even (real_of_int m) = m"
  by (simp add: round_even_def)

lemma round_even_ge_floor: "\<lfloor>z\<rfloor> \<le> round_even z"
  by (simp add: round_even_def)

lemma round_even_le: "real_of_int (round_even z) \<le> z + 1 / 2"
proof -
  have f: "frac z = z - real_of_int \<lfloor>z\<rfloor>" by (simp add: frac_def)
  have fl: "real_of_int \<lfloor>z\<rfloor> \<le> z" by (rule of_int_floor_le)
  consider "frac z < 1 / 2" | "1 / 2 < frac z" | "frac z = 1 / 2" by linarith
  then show ?thesis
  proof cases
    case 1
    then have "round_even z = \<lfloor>z\<rfloor>" by (simp add: round_even_def)
    with fl show ?thesis by linarith
  next
    case 2
    then have "round_even z = \<lfloor>z\<rfloor> + 1" by (simp add: round_even_def)
    with 2 f show ?thesis by simp
  next
    case 3
    then have "round_even z = \<lfloor>z\<rfloor> \<or> round_even z = \<lfloor>z\<rfloor> + 1" by (simp add: round_even_def)
    with 3 f show ?thesis by auto
  qed
qed

lemma round_even_unique:
  assumes "real_of_int m - 1 / 2 < z" and "z < real_of_int m + 1 / 2"
  shows "round_even z = m"
proof (cases "real_of_int m \<le> z")
  case True
  then have f: "\<lfloor>z\<rfloor> = m" using assms(2) by (intro floor_unique) simp_all
  then have "frac z < 1 / 2" using assms(2) by (simp add: frac_def)
  then show ?thesis using f by (simp add: round_even_def)
next
  case False
  then have f: "\<lfloor>z\<rfloor> = m - 1" using assms(1) by (intro floor_unique) simp_all
  then have "1 / 2 < frac z" using assms(1) by (simp add: frac_def)
  then show ?thesis using f by (simp add: round_even_def)
qed

lemma to_double_eval:
  assumes "pow2 k \<le> \<bar>x\<bar>" and "\<bar>x\<bar> < pow2 (k + 1)" and "- 1022 \<le> k"
  shows "to_double x = real_of_int (round_even (x / pow2 (k - 52))) * pow2 (k - 52)"
proof -
  have nz: "x \<noteq> 0" using assms(1) pow2_pos[of k] by auto
  have "\<lfloor>log 2 \<bar>x\<bar>\<rfloor> = k" using assms(1,2) by (rule floor_log2)
  then show ?thesis using nz assms(3) by (simp add: to_double_def Let_def max_def)
qed

lemma to_double_round:
  assumes "pow2 k \<le> \<bar>x\<bar>" and "\<bar>x\<bar> < pow2 (k + 1)" and "- 1022 \<le> k"
    and "real_of_int m - 1 / 2 < x / pow2 (k - 52)"
    and "x / pow2 (k - 52) < real_of_int m + 1 / 2"
  shows "to_double x = real_of_int m * pow2 (k - 52)"
  using to_double_eval[OF assms(1,2,3)] round_even_unique[OF assms(4,5)] by simp

lemma to_double_exact:
  assumes "pow2 k \<le> \<bar>x\<bar>" and "\<bar>x\<bar> < pow2 (k + 1)" and "- 1022 \<le> k"
    and "x / pow2 (k - 52) = real_of_int m"
  shows "to_double x = x"
proof -
  have "to_double x = real_of_int m * pow2 (k - 52)"
    using to_double_eval[OF assms(1,2,3)] assms(4) by (simp add: round_even_of_int)
  also have "\<dots> = x"
    using assms(4) pow2_pos[of "k - 52"] by (simp add: field_simps)
  finally show ?thesis .
qed

lemma to_double_quarter: "to_double (1 / 4) = 1 / 4"
  by (rule to_double_exact[where k = "- 2" and m = "2 ^ 52"]) (simp_all add: pow2_def)

lemma to_double_half: "to_double (1 / 2) = 1 / 2"
  by (rule to_double_exact[where k = "- 1" and m = "2 ^ 52"]) (simp_all add: pow2_def)

lemma to_double_13_10: "to_double (13 / 10) = 5854679515581645 / 4503599627370496"
proof -
  have "to_double (13 / 10) =
      real_of_int (round_even ((13 / 10) / pow2 (0 - 52))) * pow2 (0 - 52)"
    by (rule to_double_eval) (simp_all add: pow2_def)
  also have "\<dots> = 5854679515581645 / 4503599627370496"
    by (simp add: pow2_def round_even_def frac_def)
  finally show ?thesis .
qed

lemma to_double_frame:
  assumes "1 \<le> \<bar>x\<bar>" and "\<bar>x\<bar> < 2 ^ 53"
  shows "\<exists>j::nat. j \<le> 52 \<and> 2 ^ (52 - j) \<le> \<bar>x\<bar> \<and> \<bar>x\<bar> < 2 ^ (53 - j) \<and>
           to_double x = real_of_int (round_even (x * 2 ^ j)) / 2 ^ j"
proof -
  define k where "k = \<lfloor>log 2 \<bar>x\<bar>\<rfloor>"
  have pos: "0 < \<bar>x\<bar>" using assms(1) by linarith
  from log2_bounds[OF pos] have lo: "pow2 k \<le> \<bar>x\<bar>" and hi: "\<bar>x\<bar> < pow2 (k + 1)"
    by (simp_all add: k_def)
  have "0 \<le> log 2 \<bar>x\<bar>" using assms(1) by simp
  then have k0: "0 \<le> k" by (simp add: k_def)
  have "(2::real) ^ nat k < 2 ^ 53"
    using lo assms(2) k0 by (simp add: pow2_def)
  then have "nat k < 53" by (simp only: power_strict_increasing_iff[of 2]) 
  then have k52: "k \<le> 52" by linarith
  define j where "j = nat (52 - k)"
  have j52: "j \<le> 52" using k0 by (simp add: j_def)
  have nk: "nat k = 52 - j" and nk1: "nat (k + 1) = 53 - j"
    using k0 k52 by (simp_all add: j_def)
  have pj: "pow2 (k - 52) = 1 / 2 ^ j"
    using k52 by (cases "k = 52") (simp_all add: pow2_def j_def)
  have pk: "pow2 k = 2 ^ (52 - j)" using k0 nk by (simp add: pow2_def)
  have pk1: "pow2 (k + 1) = 2 ^ (53 - j)" using k0 nk1 by (simp add: pow2_def)
  have "to_double x = real_of_int (round_even (x / pow2 (k - 52))) * pow2 (k - 52)"
    using lo hi k0 by (intro to_double_eval) simp_all
  then have "to_double x = real_of_int (round_even (x * 2 ^ j)) / 2 ^ j"
    by (simp add: pj)
  with j52 lo hi pk pk1 show ?thesis by auto
qed


lemma to_double_of_int:
  assumes "\<bar>n\<bar> < 2 ^ 53"
  shows "to_double (real_of_int n) = real_of_int n"
proof (cases "n = 0")
  case True
  then show ?thesis by (simp add: to_double_def)
next
  case False
  then have "1 \<le> \<bar>n\<bar>" by linarith
  then have "real_of_int 1 \<le> real_of_int \<bar>n\<bar>" by (simp only: of_int_le_iff)
  then have a: "1 \<le> \<bar>real_of_int n\<bar>" by simp
  have b: "\<bar>real_of_int n\<bar> < 2 ^ 53"
  proof -
    have "real_of_int \<bar>n\<bar> < real_of_int (2 ^ 53)" using assms by (simp only: of_int_less_iff)
    then show ?thesis by simp
  qed
  from to_double_frame[OF a b] obtain j :: nat where
    d: "to_double (real_of_int n) = real_of_int (round_even (real_of_int n * 2 ^ j)) / 2 ^ j"
    by blast
  have e: "round_even (real_of_int n * 2 ^ j) = n * 2 ^ j"
    using round_even_of_int[of "n * 2 ^ j"] by simp
  show ?thesis unfolding d e by simp
qed


lemma to_double_floor_le:
  assumes "1 \<le> y" and "y < 2 ^ 53"
  shows "real_of_int \<lfloor>y\<rfloor> \<le> to_double y"
proof -
  from to_double_frame[of y] assms obtain j :: nat where
    d: "to_double y = real_of_int (round_even (y * 2 ^ j)) / 2 ^ j"
    by auto
  have "real_of_int (\<lfloor>y\<rfloor> * 2 ^ j) \<le> y * 2 ^ j"
    by (simp add: mult_right_mono)
  then have "\<lfloor>y\<rfloor> * 2 ^ j \<le> \<lfloor>y * 2 ^ j\<rfloor>" by (simp only: le_floor_iff)
  also have "\<dots> \<le> round_even (y * 2 ^ j)" by (rule round_even_ge_floor)
  finally have "real_of_int (\<lfloor>y\<rfloor> * 2 ^ j) \<le> real_of_int (round_even (y * 2 ^ j))"
    by (simp only: of_int_le_iff)
  then have "real_of_int \<lfloor>y\<rfloor> * 2 ^ j \<le> real_of_int (round_even (y * 2 ^ j))" by simp
  then show ?thesis unfolding d by (simp add: pos_le_divide_eq)
qed

lemma to_double_le_add:
  assumes "1 \<le> y" and "y < 2 ^ 50"
  shows "to_double y \<le> y + 1 / 16"
proof -
  have "y < 2 ^ 53" using assms(2) by (rule less_trans) simp
  with to_double_frame[of y] assms(1) obtain j :: nat where
    lo: "2 ^ (52 - j) \<le> \<bar>y\<bar>" and j52: "j \<le> 52"
    and d: "to_double y = real_of_int (round_even (y * 2 ^ j)) / 2 ^ j"
    by auto
  have "(2::real) ^ (52 - j) < 2 ^ 50" using lo assms by simp
  then have "52 - j < 50" by (simp only: power_strict_increasing_iff[of 2])
  then have j3: "3 \<le> j" by linarith
  have "(2::real) ^ 3 \<le> 2 ^ j" using j3 by (intro power_increasing) simp_all
  then have p8: "(8::real) \<le> 2 ^ j" by simp
  have "real_of_int (round_even (y * 2 ^ j)) \<le> y * 2 ^ j + 1 / 2" by (rule round_even_le)
  then have "to_double y \<le> (y * 2 ^ j + 1 / 2) / 2 ^ j"
    unfolding d by (simp add: divide_right_mono)
  also have "\<dots> = y + 1 / (2 * 2 ^ j)" by (simp add: field_simps)
  also have "\<dots> \<le> y + 1 / 16" using p8 by (simp add: field_simps)
  finally show ?thesis .
qed


text \<open>Values at which the float operations are exact.\<close>

lemma to_double_numeral:
  "\<bar>numeral v :: int\<bar> < 2 ^ 53 \<Longrightarrow> to_double (numeral v) = numeral v"
  using to_double_of_int[of "numeral v"] by simp

lemma to_double_one: "to_double 1 = 1"
  using to_double_of_int[of 1] by simp

lemma to_double_zero: "to_double 0 = 0"
  by (simp add: to_double_def)

lemma finite_float_small: "\<bar>y\<bar> \<le> 2 ^ 53 \<Longrightarrow> finite_float y"
proof -
  assume "\<bar>y\<bar> \<le> 2 ^ 53"
  moreover have "(2::real) ^ 53 < 2 ^ 1024"
    by (simp only: power_strict_increasing_iff[of 2])
  ultimately show ?thesis by (simp add: finite_float_def pow2_def)
qed

lemma float_of_int_small:
  assumes "\<bar>k\<bar> < 2 ^ 53"
  shows "float_of_int k = Inr (real_of_int k)"
proof -
  have "\<bar>real_of_int k\<bar> \<le> 2 ^ 53"
  proof -
    have "real_of_int \<bar>k\<bar> \<le> real_of_int (2 ^ 53)"
      using assms by (simp only: of_int_le_iff)
    then show ?thesis by simp
  qed
  then show ?thesis
    using assms by (simp add: float_of_int_def to_double_of_int finite_float_small)
qed

lemma sqrt_quarter: "sqrt (1 / 4) = 1 / 2"
  by (rule real_sqrt_unique) (simp_all add: power2_eq_square)

lemmas float_eval =
  true_div_def math_sqrt_def int_of_product_def float_of_int_small finite_float_small
  to_double_numeral to_double_one to_double_zero to_double_half to_double_quarter
  sqrt_quarter py_int_def

section \<open>The sweep of the tiler\<close>

text \<open>
  With both steps at least 1 each loop returns, and what it appends covers its strip of
  the grid once: the inner loop the columns from \<open>j\<close> on in the rows of the current
  strip, the outer loop the rows from \<open>i\<close> on. The lemmas hold for all step values,
  hence for whatever value the floating-point computation of the steps yields.
\<close>

lemma count_covering_append:
  "count_covering (xs @ ys) y x = count_covering xs y x + count_covering ys y x"
  by (simp add: count_covering_def)

lemma inner_while_row:
  assumes sx: "1 \<le> step_x"
  shows "\<exists>row. inner_while bi step_y step_x i j acc = Some (acc @ row) \<and>
           (\<forall>y x. count_covering row y x =
              (if i \<le> y \<and> y < (if i + step_y < fst (dimensions bi) then i + step_y
                                  else fst (dimensions bi)) \<and>
                  j \<le> x \<and> x < snd (dimensions bi) then 1 else 0)) \<and>
           (0 \<le> i \<and> i < fst (dimensions bi) \<and> 1 \<le> step_y \<and> 0 \<le> j
              \<longrightarrow> (\<forall>t \<in> set row. inside_grid bi t))"
proof (induction "nat (snd (dimensions bi) - j)" arbitrary: j acc rule: less_induct)
  case less
  show ?case
  proof (cases "j < snd (dimensions bi)")
    case False
    then show ?thesis
      by (subst inner_while.simps) (simp add: count_covering_def)
  next
    case True
    define t where "t = \<lparr>slice_y = \<lparr>start = i,
                     stop = (if i + step_y < fst (dimensions bi) then i + step_y
                             else fst (dimensions bi))\<rparr>,
             slice_x = \<lparr>start = j,
                     stop = (if j + step_x < snd (dimensions bi) then j + step_x
                             else snd (dimensions bi))\<rparr>, t_band_info = bi\<rparr>"
    have m: "nat (snd (dimensions bi) - (j + step_x)) < nat (snd (dimensions bi) - j)"
      using True sx by linarith
    from less[OF m, of "acc @ [t]"] obtain row where
      r1: "inner_while bi step_y step_x i (j + step_x) (acc @ [t]) = Some ((acc @ [t]) @ row)"
      and r2: "\<forall>y x. count_covering row y x =
              (if i \<le> y \<and> y < (if i + step_y < fst (dimensions bi) then i + step_y
                                  else fst (dimensions bi)) \<and>
                  j + step_x \<le> x \<and> x < snd (dimensions bi) then 1 else 0)"
      and r3: "0 \<le> i \<and> i < fst (dimensions bi) \<and> 1 \<le> step_y \<and> 0 \<le> j + step_x
              \<longrightarrow> (\<forall>t \<in> set row. inside_grid bi t)"
      by blast
    have e: "inner_while bi step_y step_x i j acc = Some (acc @ (t # row))"
      by (subst inner_while.simps) (simp only: True if_True Let_def t_def[symmetric] r1 append_assoc append_Cons append_Nil)
    have c: "\<forall>y x. count_covering (t # row) y x =
              (if i \<le> y \<and> y < (if i + step_y < fst (dimensions bi) then i + step_y
                                  else fst (dimensions bi)) \<and>
                  j \<le> x \<and> x < snd (dimensions bi) then 1 else 0)"
    proof (intro allI)
      fix y x
      have "count_covering (t # row) y x = (if covers t y x then 1 else 0) + count_covering row y x"
        by (simp add: count_covering_def)
      then show "count_covering (t # row) y x =
              (if i \<le> y \<and> y < (if i + step_y < fst (dimensions bi) then i + step_y
                                  else fst (dimensions bi)) \<and>
                  j \<le> x \<and> x < snd (dimensions bi) then 1 else 0)"
        using r2 True sx by (auto simp: covers_def t_def)
    qed
    have g: "0 \<le> i \<and> i < fst (dimensions bi) \<and> 1 \<le> step_y \<and> 0 \<le> j
              \<longrightarrow> (\<forall>t \<in> set (t # row). inside_grid bi t)"
      using r3 True sx by (auto simp: inside_grid_def t_def)
    from e c g show ?thesis by blast
  qed
qed


lemma outer_while_grid:
  assumes sy: "1 \<le> step_y" and sx: "1 \<le> step_x"
  shows "\<exists>rows. outer_while bi step_y step_x i acc = Some (acc @ rows) \<and>
           (\<forall>y x. count_covering rows y x =
              (if i \<le> y \<and> y < fst (dimensions bi) \<and>
                  0 \<le> x \<and> x < snd (dimensions bi) then 1 else 0)) \<and>
           (0 \<le> i \<longrightarrow> (\<forall>t \<in> set rows. inside_grid bi t))"
proof (induction "nat (fst (dimensions bi) - i)" arbitrary: i acc rule: less_induct)
  case less
  show ?case
  proof (cases "i < fst (dimensions bi)")
    case False
    then show ?thesis
      by (subst outer_while.simps) (simp add: count_covering_def)
  next
    case True
    from inner_while_row[OF sx, of bi step_y i 0 acc] obtain row where
      i1: "inner_while bi step_y step_x i 0 acc = Some (acc @ row)"
      and i2: "\<forall>y x. count_covering row y x =
              (if i \<le> y \<and> y < (if i + step_y < fst (dimensions bi) then i + step_y
                                  else fst (dimensions bi)) \<and>
                  0 \<le> x \<and> x < snd (dimensions bi) then 1 else 0)"
      and i3: "0 \<le> i \<and> i < fst (dimensions bi) \<and> 1 \<le> step_y \<and> (0::int) \<le> 0
              \<longrightarrow> (\<forall>t \<in> set row. inside_grid bi t)"
      by blast
    have m: "nat (fst (dimensions bi) - (i + step_y)) < nat (fst (dimensions bi) - i)"
      using True sy by linarith
    from less[OF m, of "acc @ row"] obtain rows where
      o1: "outer_while bi step_y step_x (i + step_y) (acc @ row) = Some ((acc @ row) @ rows)"
      and o2: "\<forall>y x. count_covering rows y x =
              (if i + step_y \<le> y \<and> y < fst (dimensions bi) \<and>
                  0 \<le> x \<and> x < snd (dimensions bi) then 1 else 0)"
      and o3: "0 \<le> i + step_y \<longrightarrow> (\<forall>t \<in> set rows. inside_grid bi t)"
      by blast
    have e: "outer_while bi step_y step_x i acc = Some (acc @ (row @ rows))"
      by (subst outer_while.simps) (simp add: True i1 o1)
    have c: "\<forall>y x. count_covering (row @ rows) y x =
              (if i \<le> y \<and> y < fst (dimensions bi) \<and>
                  0 \<le> x \<and> x < snd (dimensions bi) then 1 else 0)"
      using i2 o2 True sy by (auto simp: count_covering_append)
    have g: "0 \<le> i \<longrightarrow> (\<forall>t \<in> set (row @ rows). inside_grid bi t)"
      using i3 o3 True sy by auto
    from e c g show ?thesis by blast
  qed
qed


lemma outer_while_stuck:
  assumes "outer_while bi step_y step_x i acc = Some r"
  shows "\<not> (step_y \<le> 0 \<and> i < fst (dimensions bi))"
proof (rule outer_while.raw_induct
    [where P = "\<lambda>bi step_y step_x i acc r. \<not> (step_y \<le> 0 \<and> i < fst (dimensions bi))",
      OF _ assms])
  fix f bi step_y step_x i acc and r :: "Tile list"
  assume IH: "\<And>bi step_y step_x i acc r. f bi step_y step_x i acc = Some r \<Longrightarrow>
                \<not> (step_y \<le> 0 \<and> i < fst (dimensions bi))"
    and body: "(if i < fst (dimensions bi) then
        Option.bind (inner_while bi step_y step_x i 0 acc)
          (\<lambda>acc'. f bi step_y step_x (i + step_y) acc')
      else Some acc) = Some r"
  show "\<not> (step_y \<le> 0 \<and> i < fst (dimensions bi))"
  proof
    assume a: "step_y \<le> 0 \<and> i < fst (dimensions bi)"
    then have b: "i + step_y < fst (dimensions bi)" by linarith
    from body a obtain acc' where "f bi step_y step_x (i + step_y) acc' = Some r"
      by (auto simp: bind_eq_Some_conv)
    from IH[OF this] a b show False by simp
  qed
qed


lemma outer_while_diverges_y:
  "step_y \<le> 0 \<Longrightarrow> i < fst (dimensions bi) \<Longrightarrow> outer_while bi step_y step_x i acc = None"
  using outer_while_stuck[of bi step_y step_x i acc] by (cases "outer_while bi step_y step_x i acc") auto




lemma tiles_for_factor_partition:
  assumes pos: "0 < fst (dimensions bi)" "0 < snd (dimensions bi)"
    and steps: "1 < rescale_factor \<or>
       (int_of_product rescale_factor (fst (dimensions bi)) = Inr step_y \<and>
        int_of_product rescale_factor (snd (dimensions bi)) = Inr step_x \<and>
        1 \<le> step_y \<and> 1 \<le> step_x)"
  shows "\<exists>ts. tiles_for_factor bi rescale_factor = Some (Inr ts) \<and>
          (\<forall>y x. count_covering ts y x =
             (if 0 \<le> y \<and> y < fst (dimensions bi) \<and> 0 \<le> x \<and> x < snd (dimensions bi)
              then 1 else 0)) \<and>
          (\<forall>t \<in> set ts. inside_grid bi t)"
proof (cases "1 < rescale_factor")
  case True
  then show ?thesis
    using pos by (auto simp: tiles_for_factor_def Let_def count_covering_def covers_def inside_grid_def)
next
  case False
  with steps have py: "int_of_product rescale_factor (fst (dimensions bi)) = Inr step_y"
    and px: "int_of_product rescale_factor (snd (dimensions bi)) = Inr step_x"
    and sy: "1 \<le> step_y" and sx: "1 \<le> step_x"
    by simp_all
  from outer_while_grid[OF sy sx, of bi 0 "[]"] False py px show ?thesis
    by (auto simp: tiles_for_factor_def Let_def)
qed



text \<open>A band of 4 by 4 pixels with a budget of 16 bytes: four tiles of 2 by 2.\<close>

lemma create_tiles_example:
  "create_tiles d44 16 = Some (Inr (Some
     [\<lparr>slice_y = \<lparr>start = 0, stop = 2\<rparr>, slice_x = \<lparr>start = 0, stop = 2\<rparr>, t_band_info = bi44\<rparr>,
      \<lparr>slice_y = \<lparr>start = 0, stop = 2\<rparr>, slice_x = \<lparr>start = 2, stop = 4\<rparr>, t_band_info = bi44\<rparr>,
      \<lparr>slice_y = \<lparr>start = 2, stop = 4\<rparr>, slice_x = \<lparr>start = 0, stop = 2\<rparr>, t_band_info = bi44\<rparr>,
      \<lparr>slice_y = \<lparr>start = 2, stop = 4\<rparr>, slice_x = \<lparr>start = 2, stop = 4\<rparr>, t_band_info = bi44\<rparr>]))"
  by (simp add: create_tiles_def d44_def bi44_def estimate_band_size_def float_eval
      tiles_for_factor_def Let_def outer_while.simps inner_while.simps)

text \<open>
  A band of 65 by 65 pixels with a budget of 4 bytes. In exact arithmetic
  \<open>sqrt (4 / 16900) * 65\<close> is 1; in binary64 the quotient, its square root and the
  product are each rounded, the product is \<open>1 - 2 ^ - 53\<close>, both steps are 0 and the
  sweep never returns.
\<close>

lemma true_div_4_16900:
  "true_div 4 16900 = Inr (8732186543767835 / 36893488147419103232)"
proof -
  have "to_double (4 / 16900) = real_of_int 8732186543767835 * pow2 (- 13 - 52)"
    by (rule to_double_round) (simp_all add: pow2_def)
  then have "to_double (4 / 16900) = 8732186543767835 / 36893488147419103232"
    by (simp add: pow2_def)
  then show ?thesis by (simp add: true_div_def finite_float_small)
qed

lemma math_sqrt_65:
  "math_sqrt (8732186543767835 / 36893488147419103232)
     = Inr (8868626958514207 / 576460752303423488)"
proof -
  let ?q = "8732186543767835 / 36893488147419103232 :: real"
  have lo: "1 / 128 \<le> sqrt ?q" by (rule real_le_rsqrt) (simp add: power2_eq_square)
  have hi: "sqrt ?q < 1 / 64" by (rule real_less_lsqrt) (simp_all add: power2_eq_square)
  have a: "(8868626958514207 - 1 / 2) / 576460752303423488 < sqrt ?q"
    by (rule real_less_rsqrt) (simp add: power2_eq_square)
  have b: "sqrt ?q < (8868626958514207 + 1 / 2) / 576460752303423488"
    by (rule real_less_lsqrt) (simp_all add: power2_eq_square)
  have "to_double (sqrt ?q) = real_of_int 8868626958514207 * pow2 (- 7 - 52)"
  proof (rule to_double_round)
    show "pow2 (- 7) \<le> \<bar>sqrt ?q\<bar>" using lo by (simp add: pow2_def)
    show "\<bar>sqrt ?q\<bar> < pow2 (- 7 + 1)" using hi by (simp add: pow2_def)
    show "- 1022 \<le> (- 7 :: int)" by simp
    show "real_of_int 8868626958514207 - 1 / 2 < sqrt ?q / pow2 (- 7 - 52)"
      using a by (simp add: pow2_def field_simps)
    show "sqrt ?q / pow2 (- 7 - 52) < real_of_int 8868626958514207 + 1 / 2"
      using b by (simp add: pow2_def field_simps)
  qed
  then have "to_double (sqrt ?q) = 8868626958514207 / 576460752303423488"
    by (simp add: pow2_def)
  then show ?thesis by (simp add: math_sqrt_def)
qed

lemma int_of_product_65:
  "int_of_product (8868626958514207 / 576460752303423488) 65 = Inr 0"
proof -
  have "to_double (8868626958514207 / 576460752303423488 * 65)
          = real_of_int 9007199254740991 * pow2 (- 1 - 52)"
    by (rule to_double_round) (simp_all add: pow2_def)
  then have p: "to_double (8868626958514207 / 576460752303423488 * 65)
          = 9007199254740991 / 9007199254740992"
    by (simp add: pow2_def)
  have f: "float_of_int 65 = Inr 65" using float_of_int_small[of 65] by simp
  show ?thesis
    by (simp only: int_of_product_def f sum.case p Let_def)
       (simp add: finite_float_small py_int_def)
qed

lemma create_tiles_65:
  "create_tiles d65 4 = None"
  using true_div_4_16900 math_sqrt_65 int_of_product_65
  by (simp add: create_tiles_def d65_def estimate_band_size_def tiles_for_factor_def Let_def
      outer_while_diverges_y del: real_sqrt_divide)

section \<open>Claims on the tiler\<close>

text \<open>
  C1, as amended. For a band with positive dimensions \<open>(h, w)\<close> and a data-type range
  that is not empty, and a budget for which the float quotient \<open>max_size / size\<close> and
  its square root \<open>rescale_factor\<close> are computed: when \<open>rescale_factor\<close> exceeds 1
  (single tile), or the two steps that the code computes, \<open>int(rescale_factor * h)\<close>
  and \<open>int(rescale_factor * w)\<close> in float arithmetic, are both at least 1 (sweep),
  \<open>_create_tiles\<close> returns a tile list in which every pixel of \<open>[0,h) \<times> [0,w)\<close> lies
  in exactly one tile, no pixel outside the grid lies in any tile, and every tile is a
  non-empty rectangle inside the grid. Nothing is said here about a step of 0.
\<close>

theorem create_tiles_exact_partition:
  assumes bi: "band_info d = Some bi" and dims: "dimensions bi = (h, w)"
    and pos: "0 < h" "0 < w"
    and range: "0 < dt_max bi - dt_min bi + 1"
    and quot: "true_div max_size (h * w * 2 * 2) = Inr ratio"
    and rf: "math_sqrt ratio = Inr rescale_factor"
    and steps: "1 < rescale_factor \<or>
       (int_of_product rescale_factor h = Inr step_y \<and>
        int_of_product rescale_factor w = Inr step_x \<and>
        1 \<le> step_y \<and> 1 \<le> step_x)"
  shows "\<exists>ts. create_tiles d max_size = Some (Inr (Some ts)) \<and>
          (\<forall>y x. count_covering ts y x =
             (if 0 \<le> y \<and> y < h \<and> 0 \<le> x \<and> x < w then 1 else 0)) \<and>
          (\<forall>t \<in> set ts. inside_grid bi t)"
proof -
  have sz: "estimate_band_size d 2 = Inr (Some (h * w * 2 * 2))"
    using bi dims range by (simp add: estimate_band_size_def Let_def)
  from tiles_for_factor_partition[of bi rescale_factor step_y step_x] pos steps dims
  obtain ts where t: "tiles_for_factor bi rescale_factor = Some (Inr ts)"
    and c: "\<forall>y x. count_covering ts y x =
             (if 0 \<le> y \<and> y < h \<and> 0 \<le> x \<and> x < w then 1 else 0)"
    and g: "\<forall>t \<in> set ts. inside_grid bi t"
    by auto
  have "create_tiles d max_size = Some (Inr (Some ts))"
    unfolding create_tiles_def using bi sz quot rf t by simp
  with c g show ?thesis by blast
qed

theorem create_tiles_exact_partition_witness:
  "\<exists>ts. create_tiles d44 16 = Some (Inr (Some ts)) \<and>
          (\<forall>y x. count_covering ts y x =
             (if 0 \<le> y \<and> y < 4 \<and> 0 \<le> x \<and> x < 4 then 1 else 0)) \<and>
          (\<forall>t \<in> set ts. inside_grid bi44 t)"
  using create_tiles_exact_partition[where d = d44 and bi = bi44 and h = 4 and w = 4
      and max_size = 16 and ratio = "1 / 4" and rescale_factor = "1 / 2"
      and step_y = 2 and step_x = 2]
  by (simp add: d44_def bi44_def float_eval)

text \<open>
  C1 as stated fails. With a budget of 1 byte on a band of 1 by 1 pixel the rescale
  factor is \<open>sqrt(0.25) = 0.5\<close>, both steps are \<open>int(0.5) = 0\<close>, and the sweep never
  returns, so no tile list is produced. With a data-type range \<open>min = 1\<close>, \<open>max = 0\<close> the
  size estimate raises before any tile is built.
\<close>

theorem create_tiles_partition_counterexample:
  "create_tiles d11 1 = None \<and> create_tiles d_empty_range 16 = Some (Inl ValueError)"
  by (simp add: create_tiles_def d11_def d_empty_range_def estimate_band_size_def float_eval
      tiles_for_factor_def Let_def outer_while_diverges_y)

text \<open>
  C2 fails on the code: the steps are not clamped. With the default budget of 33554432
  bytes and a band of dimensions \<open>[1, 33554432]\<close> the estimated size is 134217728, the
  rescale factor is \<open>sqrt(0.25) = 0.5\<close>, \<open>step_y = int(0.5 * 1) = 0\<close> and
  \<open>step_x = 16777216\<close>: each row sweep ends, but \<open>i += step_y\<close> leaves \<open>i = 0\<close> and
  the outer loop runs forever.
\<close>

theorem create_tiles_zero_step_never_returns:
  "create_tiles d_strip 33554432 = None"
  by (simp add: create_tiles_def d_strip_def estimate_band_size_def float_eval
      tiles_for_factor_def Let_def outer_while_diverges_y)

section \<open>Claims on the size estimates\<close>

text \<open>
  C4, as amended. For every initialized downloader whose data-type range is not empty
  (\<open>max - min + 1 > 0\<close>), with band dimensions \<open>(width, height)\<close>,
  \<open>_estimate_band_size\<close> returns \<open>width * height * 2 * excess_factor\<close> (default
  \<open>excess_factor\<close> 2): a fixed 2 bytes per sample, the same for any other non-empty
  data-type range \<open>lo .. hi\<close>.
\<close>

theorem estimate_band_size_fixed_width:
  assumes "band_info d = Some bi" and "dimensions bi = (width, height)"
    and "0 < dt_max bi - dt_min bi + 1" and "0 < hi - lo + 1"
  shows "estimate_band_size d excess_factor = Inr (Some (width * height * 2 * excess_factor)) \<and>
         estimate_band_size d 2 = Inr (Some (width * height * 2 * 2)) \<and>
         estimate_band_size (d\<lparr>band_info := Some (bi\<lparr>dt_min := lo, dt_max := hi\<rparr>)\<rparr>)
           excess_factor = estimate_band_size d excess_factor"
  using assms by (simp add: estimate_band_size_def Let_def)

theorem estimate_band_size_fixed_width_witness:
  "estimate_band_size d44 3 = Inr (Some (4 * 4 * 2 * 3)) \<and>
   estimate_band_size d44 2 = Inr (Some (4 * 4 * 2 * 2)) \<and>
   estimate_band_size (d44\<lparr>band_info := Some (bi44\<lparr>dt_min := 0, dt_max := 255\<rparr>)\<rparr>) 3
     = estimate_band_size d44 3"
  using estimate_band_size_fixed_width[where d = d44 and bi = bi44 and width = 4 and height = 4
      and excess_factor = 3 and lo = 0 and hi = 255]
  by (simp add: d44_def bi44_def)

text \<open>
  C4 as stated fails on an initialized downloader with \<open>min = 1\<close>, \<open>max = 0\<close>:
  \<open>math.log2(0)\<close> raises and nothing is returned.
\<close>

theorem estimate_band_size_counterexample:
  "estimate_band_size d_empty_range 2 = Inl ValueError"
  by (simp add: estimate_band_size_def d_empty_range_def)

text \<open>
  The product of an area below \<open>2 ^ 49\<close> and the double \<open>1.3\<close>, rounded and truncated,
  is the area times 13 divided by 10 in integers: the double exceeds 13/10 by
  \<open>1 / (5 * 2 ^ 52)\<close>, and rounding the product moves it by at most 1/16.
\<close>

lemma int_of_product_13_10:
  assumes "0 \<le> k" and "k < 2 ^ 49"
  shows "int_of_product (to_double (13 / 10)) k = Inr (k * 13 div 10)"
proof (cases "k = 0")
  case True
  then show ?thesis
    by (simp add: int_of_product_def float_of_int_small to_double_zero finite_float_small
        py_int_def)
next
  case False
  define q where "q = k * 13 div 10"
  define y where "y = (5854679515581645 / 4503599627370496) * real_of_int k"
  have k1: "1 \<le> k" using assms(1) False by linarith
  have fk: "float_of_int k = Inr (real_of_int k)"
    using assms by (intro float_of_int_small) simp
  have r1: "1 \<le> real_of_int k"
  proof -
    have "real_of_int 1 \<le> real_of_int k" using k1 by (simp only: of_int_le_iff)
    then show ?thesis by simp
  qed
  have r49: "real_of_int k < 2 ^ 49"
  proof -
    have "real_of_int k < real_of_int (2 ^ 49)" using assms(2) by (simp only: of_int_less_iff)
    then show ?thesis by simp
  qed
  have "q * 10 \<le> k * 13" and "k * 13 \<le> q * 10 + 9"
    unfolding q_def by presburger+
  then have "real_of_int (q * 10) \<le> real_of_int (k * 13)"
    and "real_of_int (k * 13) \<le> real_of_int (q * 10 + 9)"
    by (simp_all only: of_int_le_iff)
  then have q1: "real_of_int q \<le> 13 * real_of_int k / 10"
    and q2: "13 * real_of_int k / 10 \<le> real_of_int q + 9 / 10"
    by simp_all
  have ysplit: "y = 13 * real_of_int k / 10 + real_of_int k / 22517998136852480"
    by (simp add: y_def field_simps)
  have small: "real_of_int k / 22517998136852480 < 1 / 40"
    using r49 by simp
  have tiny: "0 \<le> real_of_int k / 22517998136852480"
    using r1 by simp
  have ylo: "real_of_int q \<le> y" using q1 tiny ysplit by linarith
  have yhi: "y < real_of_int q + 37 / 40" using q2 small ysplit by linarith
  have y1: "1 \<le> y" using r1 tiny ysplit by linarith
  have y50: "y < 2 ^ 50" using r49 small ysplit by simp
  have y53: "y < 2 ^ 53" using y50 by (rule less_trans) simp
  have fy: "\<lfloor>y\<rfloor> = q" using ylo yhi by (intro floor_unique) simp_all
  have lo: "real_of_int q \<le> to_double y"
    using to_double_floor_le[OF y1 y53] fy by simp
  have hi: "to_double y < real_of_int q + 1"
    using to_double_le_add[OF y1 y50] yhi by linarith
  have fl: "\<lfloor>to_double y\<rfloor> = q" using lo hi by (intro floor_unique) simp_all
  have nn: "0 \<le> to_double y" using lo ylo y1 q1 r1 fy by linarith
  have fin: "finite_float (to_double y)"
    using nn hi ylo y50 by (intro finite_float_small) simp
  have "int_of_product (to_double (13 / 10)) k = Inr (py_int (to_double y))"
    using fk fin by (simp add: int_of_product_def to_double_13_10 y_def Let_def)
  then show ?thesis using nn fl by (simp add: py_int_def q_def)
qed

text \<open>
  C5, as amended. For every tile of shape \<open>(height, width)\<close> whose area
  \<open>height * width\<close> is at least 0 and below \<open>2 ^ 49\<close>, the size attribute is
  \<open>int(height * width * 1.3)\<close> in float arithmetic, which there is the integer
  \<open>(height * width * 13) div 10\<close>: \<open>height * width * 2 * 0.65\<close> rounded down to an
  integer.
\<close>

theorem size_tile_truncated:
  assumes "shape t = (h, w)" and "0 \<le> h * w" and "h * w < 2 ^ 49"
  shows "size_tile t = Inr ((h * w * 13) div 10) \<and>
         real_of_int ((h * w * 13) div 10) \<le> real_of_int (h * w) * 2 * 0.65 \<and>
         real_of_int (h * w) * 2 * 0.65 < real_of_int ((h * w * 13) div 10) + 1"
proof -
  have s: "size_tile t = Inr ((h * w * 13) div 10)"
    using assms int_of_product_13_10[of "h * w"] by (simp add: size_tile_def)
  have eq: "real_of_int (h * w) * 2 * 0.65 = real_of_int (h * w * 13) / real_of_int 10"
    by simp
  have d: "\<lfloor>real_of_int (h * w) * 2 * 0.65\<rfloor> = (h * w * 13) div 10"
    unfolding eq by (rule floor_divide_of_int_eq)
  have b1: "real_of_int \<lfloor>real_of_int (h * w) * 2 * 0.65\<rfloor> \<le> real_of_int (h * w) * 2 * 0.65"
    by (rule of_int_floor_le)
  have b2: "real_of_int (h * w) * 2 * 0.65
              < real_of_int \<lfloor>real_of_int (h * w) * 2 * 0.65\<rfloor> + 1"
    by linarith
  from s b1 b2 show ?thesis unfolding d by blast
qed

theorem size_tile_truncated_witness:
  "size_tile t14 = Inr ((1 * 4 * 13) div 10) \<and>
   real_of_int ((1 * 4 * 13) div 10) \<le> real_of_int (1 * 4) * 2 * 0.65 \<and>
   real_of_int (1 * 4) * 2 * 0.65 < real_of_int ((1 * 4 * 13) div 10) + 1"
  using size_tile_truncated[of t14 1 4] by (simp add: shape_def t14_def)

text \<open>
  C5 as stated fails. A tile of shape \<open>(1, 4)\<close> has size \<open>int(5.2) = 5\<close>, which is
  neither \<open>1 * 4 * 2 * 1.3\<close> nor \<open>1 * 4 * 2 * 0.65\<close>; and no single overhead factor fits,
  since \<open>height * width * 2 * k\<close> is proportional to the area while the sizes of the
  tiles of shape \<open>(1, 4)\<close> and \<open>(1, 1)\<close> are 5 and 1.
\<close>

theorem size_tile_counterexample:
  "shape t14 = (1, 4) \<and> size_tile t14 = Inr 5 \<and>
   shape t11 = (1, 1) \<and> size_tile t11 = Inr 1 \<and>
   (5 :: real) \<noteq> 1 * 4 * 2 * 1.3 \<and> (5 :: real) \<noteq> 1 * 4 * 2 * 0.65 \<and>
   (5 :: int) * (1 * 1 * 2) \<noteq> 1 * (1 * 4 * 2)"
  by (simp add: size_tile_def shape_def t14_def t11_def int_of_product_13_10)

text \<open>
  Above the bound the rounding shows: at shape \<open>(67108864, 67108864)\<close>, area \<open>2 ^ 52\<close>,
  the product with the double \<open>1.3\<close> is the integer 5854679515581645, one more than
  \<open>(2 ^ 52 * 13) div 10\<close>.
\<close>

lemma size_tile_large_area:
  "size_tile t_large = Inr 5854679515581645 \<and>
   ((67108864 * 67108864 * 13) div 10 :: int) = 5854679515581644"
  by (simp add: size_tile_def shape_def t_large_def int_of_product_def float_of_int_small
      to_double_13_10 to_double_numeral finite_float_small py_int_def)

section \<open>Claims on streaming and unpacking\<close>

lemma iter_content_Some:
  "iter_content cs mem_file (Some p) =
     (mem_file @ concat cs,
      Some (update p (1024 * int (length (filter (\<lambda>c. c \<noteq> []) cs)))))"
proof (induction cs arbitrary: mem_file p)
  case Nil
  show ?case by (simp add: update_def)
next
  case (Cons c cs)
  show ?case by (simp add: Cons.IH update_def algebra_simps)
qed

text \<open>
  C6, as amended. For every streamed response body and a progress bar that is given,
  \<open>open_url\<close> collects the chunks in the buffer and advances the progress counter by
  1024 for each non-empty chunk, whatever the chunk's length; on stream completion the
  counter is raised to the total only when it is below it. The counter ends at the
  larger of the total and the start value plus 1024 times the number of non-empty chunks.
\<close>

theorem open_url_progress:
  assumes "(case session of Some s \<Rightarrow> s | None \<Rightarrow> requests) url = Inr r"
  shows "open_url requests url session (Some p) =
           Inr (concat r,
                p\<lparr>pbar_n := max (pbar_total p)
                              (pbar_n p + 1024 * int (length (filter (\<lambda>c. c \<noteq> []) r)))\<rparr>)"
  using assms by (simp add: open_url_def iter_content_Some update_def max_def)

theorem open_url_progress_witness:
  "open_url resp3 ''u'' None (Some \<lparr>pbar_n = 0, pbar_total = 5000\<rparr>) =
     Inr ([1, 2, 3], \<lparr>pbar_n = 5000, pbar_total = 5000\<rparr>)"
  using open_url_progress[where session = None and requests = resp3 and url = "''u''"
      and r = "[[1, 2, 3]]" and p = "\<lparr>pbar_n = 0, pbar_total = 5000\<rparr>"]
  by (simp add: resp3_def)

text \<open>
  C6 as stated fails. A body of one chunk of 3 bytes, read with a progress bar of total 2:
  the counter ends at 1024, which is neither the chunk's length nor the total.
\<close>

theorem open_url_progress_counterexample:
  "open_url resp3 ''u'' None (Some \<lparr>pbar_n = 0, pbar_total = 2\<rparr>) =
     Inr ([1, 2, 3], \<lparr>pbar_n = 1024, pbar_total = 2\<rparr>)"
  by (simp add: open_url_def resp3_def update_def)




section \<open>Claim on geometries\<close>

text \<open>
  C8. For every list of points whose first and last elements differ, the list that the
  caller passed to \<open>create_geometry\<close> is, after the call, the old list with its first
  point appended: one element longer. The polygon is built from that closed list.
\<close>

theorem create_geometry_closes_ring:
  assumes "ps \<noteq> []" and "hd ps \<noteq> last ps"
  shows "fst (create_geometry is_valid (PtsList ps) has_logger) = PtsList (ps @ [hd ps]) \<and>
         length (ps @ [hd ps]) = length ps + 1 \<and>
         fst (snd (create_geometry is_valid (PtsList ps) has_logger)) =
           Inr (if is_valid (Polygon [ps @ [hd ps]]) then Some (Polygon [ps @ [hd ps]]) else None)"
  using assms by (cases ps) (simp_all add: create_geometry_def Let_def)

theorem create_geometry_closes_ring_witness:
  "fst (create_geometry (\<lambda>g. True) (PtsList [(0, 0), (1, 0), (1, 1)]) False)
     = PtsList ([(0, 0), (1, 0), (1, 1)] @ [hd [(0, 0), (1, 0), (1, 1)]]) \<and>
   length ([(0, 0), (1, 0), (1, 1)] @ [hd [(0, 0), (1, 0), (1 :: real, 1 :: real)]]) = length [(0, 0), (1, 0), (1 :: real, 1 :: real)] + 1 \<and>
   fst (snd (create_geometry (\<lambda>g. True) (PtsList [(0, 0), (1, 0), (1, 1)]) False)) =
     Inr (Some (Polygon [[(0, 0), (1, 0), (1, 1)] @ [hd [(0, 0), (1, 0), (1, 1)]]]))"
  using create_geometry_closes_ring[where ps = "[(0, 0), (1, 0), (1, 1)]"
      and is_valid = "\<lambda>g. True" and has_logger = False]
  by simp

section \<open>Claims on the orchestrator\<close>

text \<open>
  C7. If the requested band is not among the image's band names, \<open>download\<close> reports
  the error \<open>Image does not contain band ...\<close> through the logger and returns without
  attempting any tile download: nothing is submitted to the worker pool, no tile list is
  created (no \<open>Dividing band\<close> message, \<open>tiles\<close> untouched), no matrix is assembled
  (\<open>array\<close> untouched), and the outcome does not depend on what any tile download
  would give.
\<close>

theorem download_band_not_found:
  assumes "b \<notin> set (band_names im)"
  shows "\<exists>d' events. download Tile_download im b d = Some (d', events, None) \<and>
           LogError (''Image does not contain band '' @ b) \<in> set events \<and>
           (\<forall>t. Submit t \<notin> set events) \<and> (\<forall>k. PrintDividing k \<notin> set events) \<and>
           tiles d' = tiles d \<and> array d' = array d \<and>
           download Tile_download' im b d = download Tile_download im b d"
  using assms by (simp add: download_def)

theorem download_band_not_found_witness:
  "\<exists>d' events. download fail_first im_wide ''B99'' d44 = Some (d', events, None) \<and>
           LogError (''Image does not contain band '' @ ''B99'') \<in> set events \<and>
           (\<forall>t. Submit t \<notin> set events) \<and> (\<forall>k. PrintDividing k \<notin> set events) \<and>
           tiles d' = tiles d44 \<and> array d' = array d44 \<and>
           download always_ok im_wide ''B99'' d44 = download fail_first im_wide ''B99'' d44"
  using download_band_not_found[where b = "''B99''" and im = im_wide and d = d44
      and Tile_download = fail_first and Tile_download' = always_ok]
  by (simp add: im_wide_def)

text \<open>
  C9. If the requested band is not among the image's band names, the downloader after
  \<open>download\<close> is the downloader before it: \<open>img\<close>, \<open>band\<close>, \<open>band_info\<close>,
  \<open>array\<close> and every other field keep their values.
\<close>

theorem download_not_found_state_unchanged:
  assumes "b \<notin> set (band_names im)"
  shows "map_option fst (download Tile_download im b d) = Some d"
  using assms by (simp add: download_def)

theorem download_not_found_state_unchanged_witness:
  "map_option fst (download fail_first im_wide ''B3'' d44) = Some d44"
  using download_not_found_state_unchanged[where b = "''B3''" and im = im_wide and d = d44
      and Tile_download = fail_first]
  by (simp add: im_wide_def)


section \<open>Claim on the assembly\<close>









text \<open>
  Two tiles of one row each on a 2 by 2 matrix, both fetched: the blocks are written,
  cast to \<open>int16\<close>.
\<close>

lemma assemble_ok_example:
  "assemble [[0, 0], [0, 0]]
     [(\<lparr>slice_y = \<lparr>start = 0, stop = 1\<rparr>, slice_x = \<lparr>start = 0, stop = 2\<rparr>, t_band_info = bi44\<rparr>,
       Inr [[5, 6]]),
      (\<lparr>slice_y = \<lparr>start = 1, stop = 2\<rparr>, slice_x = \<lparr>start = 0, stop = 2\<rparr>, t_band_info = bi44\<rparr>,
       Inr [[7, 40000]])]
   = ([[5, 6], [7, -25536]], None)"
  by (simp add: set_region_def slice_bounds_def broadcastable_def block_at_def slices_def Let_def upt_rec)

text \<open>The same tiles, the first fetched and the second failed.\<close>

lemma assemble_second_fails_example:
  "assemble [[0, 0], [0, 0]]
     [(\<lparr>slice_y = \<lparr>start = 0, stop = 1\<rparr>, slice_x = \<lparr>start = 0, stop = 2\<rparr>, t_band_info = bi44\<rparr>,
       Inr [[5, 6]]),
      (\<lparr>slice_y = \<lparr>start = 1, stop = 2\<rparr>, slice_x = \<lparr>start = 0, stop = 2\<rparr>, t_band_info = bi44\<rparr>,
       Inl (FetchError ''timeout''))]
   = ([[5, 6], [0, 0]], Some (FetchError ''timeout''))"
  by (simp add: set_region_def slice_bounds_def broadcastable_def block_at_def slices_def Let_def upt_rec)






end
